theory Spec2Isabelle
  imports Main "HOL-Library.Word"
begin

unbundle bit_operations_syntax

section \<open>Data model of kernel.cpp\<close>

text \<open>
  \<open>uint256\<close> and \<open>arith_uint256\<close> are 256-bit values, \<open>unsigned int\<close> is 32 bits wide
  and \<open>int64_t\<close> (the type of an output's \<open>nValue\<close>) is kept as its 64-bit pattern.
  Block heights are C \<open>int\<close>s that the file only compares with constants, so they are
  modelled as mathematical integers.
\<close>

type_synonym uint256 = "256 word"
type_synonym uint = "32 word"
type_synonym int64 = "64 word"

text \<open>
  A \<open>CBlockIndex *\<close> is either \<open>nullptr\<close> (\<open>None\<close>) or the address of an index entry.
  The entry holds the fields the file reads.
\<close>

type_synonym addr = nat

record CBlockIndex =
  pprev :: "addr option"
  nHeight :: int
  nStakeModifier :: uint256
  hashProofOfStake :: uint256

record COutPoint =
  hash :: uint256
  n :: uint

record CTxIn =
  prevout :: COutPoint

record CTxOut =
  nValue :: int64

text \<open>
  The transaction as this file consumes it. \<open>IsNull\<close>, \<open>IsCoinBase\<close>, \<open>IsCoinStake\<close>
  and \<open>GetHash\<close> are member functions declared outside kernel.cpp. The results of
  \<open>IsNull\<close>, \<open>IsCoinBase\<close> and \<open>GetHash\<close> are carried as fields, and so is the
  coinstake flag.
\<close>

record CTransaction =
  IsNull :: bool
  IsCoinBase :: bool
  coinstake_flag :: bool
  tx_GetHash :: uint256
  nTime :: uint
  vin :: "CTxIn list"
  vout :: "CTxOut list"

text \<open>
  Modelled from the spec: \<open>CTransaction::IsCoinStake\<close>, which is declared outside
  kernel.cpp. The spec has a coinstake be a specially flagged transaction that spends an
  aged output, so the predicate holds only of a flagged transaction with a first input.
\<close>

definition IsCoinStake :: "CTransaction \<Rightarrow> bool" where
  "IsCoinStake tx = (coinstake_flag tx \<and> vin tx \<noteq> [])"

text \<open>
  The block as this file consumes it: \<open>GetBlockTime()\<close> (the header's 32-bit time) and
  \<open>GetHash()\<close>.
\<close>

record CBlock =
  GetBlockTime :: uint
  GetHash :: uint256

text \<open>
  A \<open>CDataStream\<close> is modelled by the sequence of values written to it with \<open><<\<close>.
  The byte encoding of each value and the hash function over the bytes are declared
  outside kernel.cpp, so \<open>Hash\<close> is a parameter that takes the written sequence.
\<close>

datatype written = Ser256 uint256 | Ser32 uint

type_synonym CDataStream = "written list"

text \<open>
  Everything kernel.cpp reaches through the global \<open>pnetMan\<close> and the other
  collaborators declared elsewhere is a field of one record:
  the block-index memory, the active chain (\<open>LookupBlockIndex\<close>, \<open>Tip\<close>, \<open>Next\<close>),
  the consensus parameters, the difficulty provider with the compact decoder (which
  yields the target, \<open>fNegative\<close> and \<open>fOverflow\<close>), the hash function, and the
  transaction, block and transaction-index lookups. \<open>ReadTxIndex\<close> gives the
  \<open>nTxOffset\<close> that \<open>txindex\<close> holds after the call, whose return value the file ignores.
\<close>

record netman =
  blockindex :: "addr \<Rightarrow> CBlockIndex"
  LookupBlockIndex :: "uint256 \<Rightarrow> addr option"
  Tip :: "addr option"
  Next :: "addr \<Rightarrow> addr option"
  getStakeMinAge :: uint
  posLimit :: uint256
  GetNextTargetRequired :: "addr option \<Rightarrow> bool \<Rightarrow> uint"
  SetCompact :: "uint \<Rightarrow> uint256 \<times> bool \<times> bool"
  Hash :: "CDataStream \<Rightarrow> uint256"
  GetTransaction :: "uint256 \<Rightarrow> (CTransaction \<times> uint256) option"
  ReadBlockFromDisk :: "addr option \<Rightarrow> CBlock option"
  VerifySignature :: "CTransaction \<Rightarrow> CTransaction \<Rightarrow> nat \<Rightarrow> bool \<Rightarrow> bool"
  ReadTxIndex :: "uint256 \<Rightarrow> uint"

text \<open>
  Undefined behaviour of the C++ is a fault: dereferencing a null \<open>CBlockIndex *\<close>, and
  indexing a vector out of range.
\<close>

datatype fault = NullDereference | OutOfRange

section \<open>GetKernelStakeModifier\<close>

text \<open>
  One constructor per \<open>return\<close> statement. The function returns \<open>true\<close> only at
  \<open>ModifierOk\<close>.
\<close>

datatype modifier_exit = NotIndexed | InsufficientDepth | ModifierOk

text \<open>
  The \<open>while\<close> loop of lines 54 to 58: it stops when there is no next block or when
  \<open>blocksToGo\<close> has reached 0, and returns the final \<open>pindex\<close> and \<open>blocksToGo\<close>.
\<close>

function walk :: "netman \<Rightarrow> addr \<Rightarrow> int \<Rightarrow> addr \<times> int" where
  "walk c pindex blocksToGo =
     (case Next c pindex of
        None \<Rightarrow> (pindex, blocksToGo)
      | Some nx \<Rightarrow>
          if blocksToGo > 0 then walk c nx (blocksToGo - 1) else (pindex, blocksToGo))"
  by pat_completeness auto
termination
  by (relation "measure (\<lambda>(c, p, b). nat b)") auto

declare walk.simps [simp del]

text \<open>The six values written to the stream at lines 66 to 71 and 107 to 112.\<close>

definition six_fields :: "netman \<Rightarrow> addr \<Rightarrow> addr \<Rightarrow> addr \<Rightarrow> CDataStream" where
  "six_fields c p0 p1 p2 =
     [Ser256 (nStakeModifier (blockindex c p0)), Ser256 (hashProofOfStake (blockindex c p0)),
      Ser256 (nStakeModifier (blockindex c p1)), Ser256 (hashProofOfStake (blockindex c p1)),
      Ser256 (nStakeModifier (blockindex c p2)), Ser256 (hashProofOfStake (blockindex c p2))]"

text \<open>
  The second argument after the environment is the value the caller's \<open>nStakeModifier\<close>
  holds on entry; the result is the exit taken and the value it holds on return.
  Here and below, a parameter or local variable whose name is also the name of a field
  carries a prime.
\<close>

definition GetKernelStakeModifier ::
  "netman \<Rightarrow> uint256 \<Rightarrow> uint256 \<Rightarrow> fault + (modifier_exit \<times> uint256)" where
  "GetKernelStakeModifier c hashBlockFrom nStakeModifier0 =
     (let nStakeModifier' = (0 :: uint256) in
      case LookupBlockIndex c hashBlockFrom of
        None \<Rightarrow> Inr (NotIndexed, nStakeModifier')
      | Some pindex0 \<Rightarrow>
         (case Tip c of
            None \<Rightarrow> Inl NullDereference
          | Some tip \<Rightarrow>
             (let blocksToGo0 = (if nHeight (blockindex c tip) \<ge> 1504350 then 180 else 5);
                  (pindex, blocksToGo) = walk c pindex0 blocksToGo0
              in if blocksToGo > 0 then Inr (InsufficientDepth, nStakeModifier')
                 else
                   (case pprev (blockindex c pindex) of
                      None \<Rightarrow> Inl NullDereference
                    | Some p1 \<Rightarrow>
                       (case pprev (blockindex c p1) of
                          None \<Rightarrow> Inl NullDereference
                        | Some p2 \<Rightarrow>
                            Inr (ModifierOk, Hash c (six_fields c pindex p1 p2)))))))"

section \<open>ComputeNextStakeModifier\<close>

text \<open>One constructor per \<open>return\<close> statement, in the order of the source.\<close>

datatype next_exit =
    GenesisOk
  | InvalidGenesisState
  | CoinBaseOk
  | PrevTxNotFound
  | ReadBlockFailed
  | SelectorFailed modifier_exit
  | NextOk


definition ComputeNextStakeModifier ::
  "netman \<Rightarrow> addr option \<Rightarrow> CTransaction \<Rightarrow> uint256 \<Rightarrow> fault + (next_exit \<times> uint256)" where
  "ComputeNextStakeModifier c pindexPrev tx nStakeModifier0 =
     (let nStakeModifier' = (0 :: uint256) in
      if IsNull tx then
        (if pindexPrev = None then Inr (GenesisOk, nStakeModifier')
         else Inr (InvalidGenesisState, nStakeModifier'))
      else if IsCoinBase tx then
        (case pindexPrev of
           None \<Rightarrow> Inl NullDereference
         | Some p0 \<Rightarrow>
            (case pprev (blockindex c p0) of
               None \<Rightarrow> Inr (CoinBaseOk, nStakeModifier')
             | Some p1 \<Rightarrow>
                (case pprev (blockindex c p1) of
                   None \<Rightarrow> Inr (CoinBaseOk, nStakeModifier')
                 | Some p2 \<Rightarrow> Inr (CoinBaseOk, Hash c (six_fields c p0 p1 p2)))))
      else
        (case vin tx of
           [] \<Rightarrow> Inl OutOfRange
         | txin # _ \<Rightarrow>
            (case GetTransaction c (hash (prevout txin)) of
               None \<Rightarrow> Inr (PrevTxNotFound, nStakeModifier')
             | Some (txPrev, blockHashOfTx) \<Rightarrow>
                (case ReadBlockFromDisk c (LookupBlockIndex c blockHashOfTx) of
                   None \<Rightarrow> Inr (ReadBlockFailed, nStakeModifier')
                 | Some block \<Rightarrow>
                    (case GetKernelStakeModifier c (GetHash block) nStakeModifier' of
                       Inl f \<Rightarrow> Inl f
                     | Inr (e, m) \<Rightarrow>
                         if e = ModifierOk then Inr (NextOk, m)
                         else Inr (SelectorFailed e, m))))))"

section \<open>CheckStakeKernelHash\<close>

text \<open>
  Modelled from the spec: \<open>arith_uint256::GetHex\<close>, which is declared outside
  kernel.cpp. The spec has it render the value as a fixed-width hexadecimal string of
  64 digits; the digits are written most significant first.
\<close>

definition hex_digit :: "nat \<Rightarrow> char" where
  "hex_digit d = ''0123456789abcdef'' ! d"

definition GetHex :: "uint256 \<Rightarrow> string" where
  "GetHex v = map (\<lambda>i. hex_digit (unat (drop_bit (4 * i) v AND 15))) (rev [0 ..< 64])"

text \<open>
  Lines 245 and 246: \<open>std::count\<close> of the character \<open>'0'\<close>, stored in an
  \<open>unsigned int\<close>, and \<open>64 - n\<close> in \<open>unsigned int\<close> arithmetic.
\<close>

definition redux_of :: "uint256 \<Rightarrow> uint" where
  "redux_of reduction =
     (let reductionHex = GetHex reduction;
          n = (of_nat (count_list reductionHex CHR ''0'') :: uint)
      in 64 - n)"

text \<open>One constructor per \<open>return\<close> statement; only \<open>KernelOk\<close> returns \<open>true\<close>.\<close>

datatype kernel_exit =
    TimestampViolation
  | MinimumAgeViolation
  | NonPositiveWeight
  | ModifierUnavailable modifier_exit
  | InvalidTarget
  | TargetNotMet
  | KernelOk

text \<open>
  Line 195. \<open>nTimeWeight\<close> is computed in \<open>int64_t\<close> from three 32-bit unsigned
  values, which cannot overflow, so it is a mathematical integer here. The declaration
  of \<open>getStakeMinAge\<close> is outside kernel.cpp; it is taken as \<open>unsigned int\<close>. A
  declaration as \<open>int\<close> gives the same sum at line 187 for every value and the same
  weight for every value below \<open>2 ^ 31\<close>.
\<close>

definition nTimeWeight_of :: "netman \<Rightarrow> CTransaction \<Rightarrow> uint \<Rightarrow> int" where
  "nTimeWeight_of c txPrev nTimeTx =
     (uint nTimeTx - uint (nTime txPrev)) - uint (getStakeMinAge c)"

text \<open>
  The block guarded by \<open>nHeight > 1504350\<close> (lines 222 to 263). \<open>arith_uint256\<close> is
  built from a 64-bit unsigned argument, so both factors are zero-extended.
\<close>

definition target_check ::
  "netman \<Rightarrow> int \<Rightarrow> int64 \<Rightarrow> uint256 \<Rightarrow> kernel_exit" where
  "target_check c nTimeWeight nValueIn hashProofOfStake' =
     (let arith_hashProofOfStake = hashProofOfStake';
          reduction = (ucast (word_of_int nTimeWeight :: 64 word) :: uint256)
                        * (ucast nValueIn :: uint256);
          (hashTarget, fNegative, fOverflow) =
             SetCompact c (GetNextTargetRequired c (Tip c) True)
      in if fNegative \<or> hashTarget = 0 \<or> fOverflow \<or> hashTarget > posLimit c
         then InvalidTarget
         else
          (let redux = redux_of reduction;
               arith_hashProofOfStake = drop_bit 20 arith_hashProofOfStake;
               arith_hashProofOfStake = drop_bit (unat redux) arith_hashProofOfStake
           in if arith_hashProofOfStake > hashTarget then TargetNotMet else KernelOk))"

text \<open>
  The last argument is the value the caller's \<open>hashProofOfStake\<close> holds on entry; the
  result is the exit taken and the value it holds on return.
\<close>

definition CheckStakeKernelHash ::
  "netman \<Rightarrow> int \<Rightarrow> CBlock \<Rightarrow> uint \<Rightarrow> CTransaction \<Rightarrow> COutPoint \<Rightarrow> uint \<Rightarrow> uint256
     \<Rightarrow> fault + (kernel_exit \<times> uint256)" where
  "CheckStakeKernelHash c nHeight' blockFrom nTxPrevOffset txPrev prevout' nTimeTx
       hashProofOfStake0 =
     (if nTimeTx < nTime txPrev then Inr (TimestampViolation, hashProofOfStake0)
      else
       (let nTimeBlockFrom = GetBlockTime blockFrom in
        if nTimeBlockFrom + getStakeMinAge c > nTimeTx
        then Inr (MinimumAgeViolation, hashProofOfStake0)
        else if \<not> unat (n prevout') < length (vout txPrev) then Inl OutOfRange
        else
         (let nValueIn = nValue (vout txPrev ! unat (n prevout'));
              nTimeWeight = nTimeWeight_of c txPrev nTimeTx
          in if nTimeWeight \<le> 0 then Inr (NonPositiveWeight, hashProofOfStake0)
             else
              (case GetKernelStakeModifier c (GetHash blockFrom) 0 of
                 Inl f \<Rightarrow> Inl f
               | Inr (e, nStakeModifier') \<Rightarrow>
                  if e \<noteq> ModifierOk then Inr (ModifierUnavailable e, hashProofOfStake0)
                  else
                   (let ss = [Ser256 nStakeModifier', Ser32 nTimeBlockFrom,
                              Ser32 nTxPrevOffset, Ser32 (nTime txPrev),
                              Ser32 (n prevout'), Ser32 nTimeTx];
                        hashProofOfStake' = Hash c ss
                    in if nHeight' > 1504350
                       then
                        Inr (target_check c nTimeWeight nValueIn hashProofOfStake',
                             hashProofOfStake')
                       else Inr (KernelOk, hashProofOfStake'))))))"

section \<open>CheckProofOfStake\<close>

datatype pos_exit =
    NotCoinstake
  | PosPrevTxNotFound
  | SignatureInvalid
  | PosReadBlockFailed
  | KernelCheckFailed kernel_exit
  | PosOk

definition CheckProofOfStake ::
  "netman \<Rightarrow> int \<Rightarrow> CTransaction \<Rightarrow> uint256 \<Rightarrow> fault + (pos_exit \<times> uint256)" where
  "CheckProofOfStake c nHeight' tx hashProofOfStake0 =
     (if \<not> IsCoinStake tx then Inr (NotCoinstake, hashProofOfStake0)
      else
       (case vin tx of
          [] \<Rightarrow> Inl OutOfRange
        | txin # _ \<Rightarrow>
           (case GetTransaction c (hash (prevout txin)) of
              None \<Rightarrow> Inr (PosPrevTxNotFound, hashProofOfStake0)
            | Some (txPrev, blockHashOfTx) \<Rightarrow>
               if \<not> VerifySignature c txPrev tx 0 True
               then Inr (SignatureInvalid, hashProofOfStake0)
               else
                (case ReadBlockFromDisk c (LookupBlockIndex c blockHashOfTx) of
                   None \<Rightarrow> Inr (PosReadBlockFailed, hashProofOfStake0)
                 | Some block \<Rightarrow>
                    (let nTxOffset = ReadTxIndex c (tx_GetHash txPrev) in
                     if nHeight' < 1505775
                     then
                      (case CheckStakeKernelHash c nHeight' block (nTxOffset + 80) txPrev
                              (prevout txin) (nTime tx) hashProofOfStake0 of
                         Inl f \<Rightarrow> Inl f
                       | Inr (e, h) \<Rightarrow>
                           if e \<noteq> KernelOk then Inr (KernelCheckFailed e, h)
                           else Inr (PosOk, h))
                     else
                      (case CheckStakeKernelHash c nHeight' block nTxOffset txPrev
                              (prevout txin) (nTime tx) hashProofOfStake0 of
                         Inl f \<Rightarrow> Inl f
                       | Inr (e, h) \<Rightarrow>
                           if e \<noteq> KernelOk then Inr (KernelCheckFailed e, h)
                           else Inr (PosOk, h)))))))"

section \<open>Notions of the specification\<close>

text \<open>
  The lookahead distance as the specification words it: 5 below tip height 1504350,
  180 from there on.
\<close>

definition lookahead_distance :: "int \<Rightarrow> nat" where
  "lookahead_distance tipHeight = (if tipHeight < 1504350 then 5 else 180)"

text \<open>
  Following exactly \<open>k\<close> next-block links from a block; \<open>None\<close> when fewer than \<open>k\<close>
  links exist.
\<close>

fun nth_next :: "netman \<Rightarrow> nat \<Rightarrow> addr \<Rightarrow> addr option" where
  "nth_next c 0 p = Some p"
| "nth_next c (Suc k) p = (case Next c p of None \<Rightarrow> None | Some q \<Rightarrow> nth_next c k q)"

section \<open>Example environments\<close>

text \<open>
  A chain of blocks at addresses \<open>0\<close> to \<open>tp\<close>, linked in both directions, whose
  heights start at \<open>base\<close>; a small stand-in for the hash function; one confirmed
  transaction with two outputs, and transactions that spend its second output.
\<close>

definition example_hash :: "CDataStream \<Rightarrow> uint256" where
  "example_hash ss =
     fold (\<lambda>w acc. 31 * acc + (case w of Ser256 x \<Rightarrow> x | Ser32 y \<Rightarrow> ucast y)) ss 7"

definition example_prev_tx :: CTransaction where
  "example_prev_tx =
     \<lparr>IsNull = False, IsCoinBase = False, coinstake_flag = False, tx_GetHash = 77,
      nTime = 1000, vin = [], vout = [\<lparr>nValue = 5000\<rparr>, \<lparr>nValue = 7000\<rparr>]\<rparr>"

definition example_chain :: "nat \<Rightarrow> int \<Rightarrow> netman" where
  "example_chain tp base =
     \<lparr>blockindex = (\<lambda>a. \<lparr>pprev = (if a = 0 then None else Some (a - 1)),
                           nHeight = base + int a,
                           nStakeModifier = of_nat (a + 1),
                           hashProofOfStake = of_nat (2 * a + 3)\<rparr>),
      LookupBlockIndex = (\<lambda>h. if unat h \<le> tp then Some (unat h) else None),
      Tip = Some tp,
      Next = (\<lambda>a. if a < tp then Some (a + 1) else None),
      getStakeMinAge = 100,
      posLimit = 1099511627776,
      GetNextTargetRequired = (\<lambda>_ _. 0x1e0fffff),
      SetCompact = (\<lambda>bits. (32 * ucast bits, False, False)),
      Hash = example_hash,
      GetTransaction = (\<lambda>h. if h = 77 then Some (example_prev_tx, 2) else None),
      ReadBlockFromDisk =
        (\<lambda>p. case p of None \<Rightarrow> None
              | Some a \<Rightarrow> Some \<lparr>GetBlockTime = 1000 + of_nat a, GetHash = of_nat a\<rparr>),
      VerifySignature = (\<lambda>_ _ _ _. True),
      ReadTxIndex = (\<lambda>_. 81)\<rparr>"

definition example_block :: CBlock where
  "example_block = \<lparr>GetBlockTime = 1002, GetHash = 2\<rparr>"

definition example_prevout :: COutPoint where
  "example_prevout = \<lparr>hash = 77, n = 1\<rparr>"

definition example_coinstake :: CTransaction where
  "example_coinstake =
     \<lparr>IsNull = False, IsCoinBase = False, coinstake_flag = True, tx_GetHash = 88,
      nTime = 5000, vin = [\<lparr>prevout = \<lparr>hash = 77, n = 1\<rparr>\<rparr>],
      vout = [\<lparr>nValue = 0\<rparr>, \<lparr>nValue = 7100\<rparr>]\<rparr>"

definition example_coinbase :: CTransaction where
  "example_coinbase =
     \<lparr>IsNull = False, IsCoinBase = True, coinstake_flag = False, tx_GetHash = 99,
      nTime = 5000, vin = [\<lparr>prevout = \<lparr>hash = 0, n = 0xffffffff\<rparr>\<rparr>],
      vout = [\<lparr>nValue = 50\<rparr>]\<rparr>"

definition example_late_block :: CBlock where
  "example_late_block = \<lparr>GetBlockTime = 2000, GetHash = 2\<rparr>"

definition example_early_block :: CBlock where
  "example_early_block = \<lparr>GetBlockTime = 900, GetHash = 2\<rparr>"

text \<open>
  The same chain with a limit below the decoded target; a transaction with no input;
  a coinstake whose outpoint names a third output of the previous transaction.
\<close>

definition example_low_limit_chain :: netman where
  "example_low_limit_chain = (example_chain 8 0)\<lparr>posLimit := 1000\<rparr>"



section \<open>The forward walk\<close>

lemma walk_None: "Next c p = None \<Longrightarrow> walk c p b = (p, b)"
  by (subst walk.simps) simp

lemma walk_stop: "\<not> 0 < b \<Longrightarrow> walk c p b = (p, b)"
  by (subst walk.simps) (simp split: option.splits)

lemma walk_step: "Next c p = Some r \<Longrightarrow> 0 < b \<Longrightarrow> walk c p b = walk c r (b - 1)"
  by (subst walk.simps) simp

lemma walk_nth_next_Some:
  "nth_next c k p = Some q \<Longrightarrow> walk c p (int k) = (q, 0)"
proof (induction k arbitrary: p)
  case 0
  then show ?case by (simp add: walk_stop)
next
  case (Suc k)
  from Suc.prems obtain r where r: "Next c p = Some r" and q: "nth_next c k r = Some q"
    by (auto split: option.splits)
  have "walk c p (int (Suc k)) = walk c r (int k)"
    using walk_step [OF r, of "int (Suc k)"] by simp
  with Suc.IH [OF q] show ?case by simp
qed

lemma walk_nth_next_None:
  "nth_next c k p = None \<Longrightarrow> 0 < snd (walk c p (int k))"
proof (induction k arbitrary: p)
  case 0
  then show ?case by simp
next
  case (Suc k)
  show ?case
  proof (cases "Next c p")
    case None
    then show ?thesis by (simp add: walk_None)
  next
    case (Some r)
    with Suc.prems have "nth_next c k r = None" by simp
    from Suc.IH [OF this] walk_step [OF Some, of "int (Suc k)"] show ?thesis
      by simp
  qed
qed

lemma GetKernelStakeModifier_short:
  assumes "LookupBlockIndex c h = Some p" "Tip c = Some t"
    and "nth_next c (if nHeight (blockindex c t) < 1504350 then 5 else 180) p = None"
  shows "GetKernelStakeModifier c h m0 = Inr (InsufficientDepth, 0)"
proof (cases "nHeight (blockindex c t) < 1504350")
  case True
  with assms(3) have "0 < snd (walk c p 5)"
    using walk_nth_next_None [of c 5 p] by simp
  then show ?thesis using assms(1,2) True
    by (cases "walk c p 5") (simp add: GetKernelStakeModifier_def Let_def)
next
  case False
  with assms(3) have "0 < snd (walk c p 180)"
    using walk_nth_next_None [of c 180 p] by simp
  then show ?thesis using assms(1,2) False
    by (cases "walk c p 180") (simp add: GetKernelStakeModifier_def Let_def)
qed

lemma GetKernelStakeModifier_deep:
  assumes "LookupBlockIndex c h = Some p" "Tip c = Some t"
    and "nth_next c (if nHeight (blockindex c t) < 1504350 then 5 else 180) p = Some q"
  shows "GetKernelStakeModifier c h m0 =
     (case pprev (blockindex c q) of
        None \<Rightarrow> Inl NullDereference
      | Some p1 \<Rightarrow>
         (case pprev (blockindex c p1) of
            None \<Rightarrow> Inl NullDereference
          | Some p2 \<Rightarrow> Inr (ModifierOk, Hash c (six_fields c q p1 p2))))"
proof (cases "nHeight (blockindex c t) < 1504350")
  case True
  with assms(3) have "walk c p 5 = (q, 0)"
    using walk_nth_next_Some [of c 5 p q] by simp
  then show ?thesis using assms(1,2) True
    by (simp add: GetKernelStakeModifier_def Let_def)
next
  case False
  with assms(3) have "walk c p 180 = (q, 0)"
    using walk_nth_next_Some [of c 180 p q] by simp
  then show ?thesis using assms(1,2) False
    by (simp add: GetKernelStakeModifier_def Let_def)
qed

text \<open>
  C4. Once the reference block is resolved, the lookahead distance \<open>L\<close> depends on the
  height of the chain tip only: 5 below 1504350 and 180 from there on. When fewer than
  \<open>L\<close> next-block links lead on from the reference block, the selector returns
  \<open>false\<close> at the insufficient-depth exit with the null modifier. When \<open>L\<close> links exist,
  the block it hashes from is the one exactly \<open>L\<close> links ahead.
\<close>

theorem GetKernelStakeModifier_lookahead:
  assumes "LookupBlockIndex c h = Some p" and "Tip c = Some t"
  shows "(nth_next c (lookahead_distance (nHeight (blockindex c t))) p = None \<longrightarrow>
            GetKernelStakeModifier c h m0 = Inr (InsufficientDepth, 0)) \<and>
         (\<forall>q. nth_next c (lookahead_distance (nHeight (blockindex c t))) p = Some q \<longrightarrow>
            GetKernelStakeModifier c h m0 =
              (case pprev (blockindex c q) of
                 None \<Rightarrow> Inl NullDereference
               | Some p1 \<Rightarrow>
                  (case pprev (blockindex c p1) of
                     None \<Rightarrow> Inl NullDereference
                   | Some p2 \<Rightarrow> Inr (ModifierOk, Hash c (six_fields c q p1 p2)))))"
  using GetKernelStakeModifier_short [OF assms] GetKernelStakeModifier_deep [OF assms]
  unfolding lookahead_distance_def by blast

theorem GetKernelStakeModifier_lookahead_witness:
  "GetKernelStakeModifier (example_chain 8 0) 4 12345 = Inr (InsufficientDepth, 0) \<and>
   GetKernelStakeModifier (example_chain 8 0) 2 12345 = Inr (ModifierOk, 6457481983) \<and>
   GetKernelStakeModifier (example_chain 200 1504350) 3 12345
     = Inr (ModifierOk, 11826879247)"
proof -
  have a: "LookupBlockIndex (example_chain 8 0) 4 = Some 4"
    and b: "LookupBlockIndex (example_chain 8 0) 2 = Some 2"
    and t: "Tip (example_chain 8 0) = Some 8"
    and l: "lookahead_distance (nHeight (blockindex (example_chain 8 0) 8)) = 5"
    by (simp_all add: example_chain_def lookahead_distance_def)
  have a': "LookupBlockIndex (example_chain 200 1504350) 3 = Some 3"
    and t': "Tip (example_chain 200 1504350) = Some 200"
    and l': "lookahead_distance (nHeight (blockindex (example_chain 200 1504350) 200)) = 180"
    by (simp_all add: example_chain_def lookahead_distance_def)
  have f1: "nth_next (example_chain 8 0) 5 4 = None"
    and f2: "nth_next (example_chain 8 0) 5 2 = Some 7"
    by (simp_all add: example_chain_def eval_nat_numeral)
  have f3: "nth_next (example_chain 200 1504350) 180 3 = Some 183"
    by code_simp
  have v2: "(case pprev (blockindex (example_chain 8 0) 7) of
               None \<Rightarrow> Inl NullDereference
             | Some p1 \<Rightarrow>
                (case pprev (blockindex (example_chain 8 0) p1) of
                   None \<Rightarrow> Inl NullDereference
                 | Some p2 \<Rightarrow>
                     Inr (ModifierOk,
                          Hash (example_chain 8 0) (six_fields (example_chain 8 0) 7 p1 p2))))
            = Inr (ModifierOk, 6457481983)"
    by (simp add: example_chain_def six_fields_def example_hash_def)
  have v3: "(case pprev (blockindex (example_chain 200 1504350) 183) of
               None \<Rightarrow> Inl NullDereference
             | Some p1 \<Rightarrow>
                (case pprev (blockindex (example_chain 200 1504350) p1) of
                   None \<Rightarrow> Inl NullDereference
                 | Some p2 \<Rightarrow>
                     Inr (ModifierOk,
                          Hash (example_chain 200 1504350)
                            (six_fields (example_chain 200 1504350) 183 p1 p2))))
            = Inr (ModifierOk, 11826879247)"
    by (simp add: example_chain_def six_fields_def example_hash_def)
  show ?thesis
    using GetKernelStakeModifier_lookahead [OF a t, of 12345]
      GetKernelStakeModifier_lookahead [OF b t, of 12345]
      GetKernelStakeModifier_lookahead [OF a' t', of 12345]
    by (simp add: l l' f1 f2 f3 v2 v3)
qed

section \<open>The null modifier on failure\<close>








section \<open>The kernel hash and the height gate\<close>


lemma CheckStakeKernelHash_reached:
  assumes "\<not> nTimeTx < nTime txPrev"
    and "\<not> GetBlockTime blockFrom + getStakeMinAge c > nTimeTx"
    and "unat (n po) < length (vout txPrev)"
    and "0 < nTimeWeight_of c txPrev nTimeTx"
    and "GetKernelStakeModifier c (GetHash blockFrom) 0 = Inr (ModifierOk, m)"
  shows "CheckStakeKernelHash c ht blockFrom off txPrev po nTimeTx h0 =
     Inr (if ht > 1504350
          then target_check c (nTimeWeight_of c txPrev nTimeTx)
                 (nValue (vout txPrev ! unat (n po)))
                 (Hash c [Ser256 m, Ser32 (GetBlockTime blockFrom), Ser32 off,
                          Ser32 (nTime txPrev), Ser32 (n po), Ser32 nTimeTx])
          else KernelOk,
          Hash c [Ser256 m, Ser32 (GetBlockTime blockFrom), Ser32 off,
                  Ser32 (nTime txPrev), Ser32 (n po), Ser32 nTimeTx])"
  using assms by (simp add: CheckStakeKernelHash_def Let_def)

lemma CheckStakeKernelHash_height_independent:
  "map_sum id snd (CheckStakeKernelHash c ht1 blockFrom off txPrev po nTimeTx h0) =
   map_sum id snd (CheckStakeKernelHash c ht2 blockFrom off txPrev po nTimeTx h0)"
  by (simp add: CheckStakeKernelHash_def Let_def split: sum.splits prod.splits)

lemma length_GetHex: "length (GetHex v) = 64"
  by (simp add: GetHex_def)

lemma count_list_le_length: "count_list xs x \<le> length xs"
  by (induction xs) auto

lemma unat_redux_of:
  "unat (redux_of r) = 64 - count_list (GetHex r) CHR ''0''"
proof -
  let ?k = "count_list (GetHex r) CHR ''0''"
  have k: "?k \<le> 64"
    using count_list_le_length [of "GetHex r" "CHR ''0''"] by (simp add: length_GetHex)
  have "(64 :: uint) - of_nat ?k = of_nat (64 - ?k)"
    using k by (simp add: of_nat_diff)
  moreover have "unat (of_nat (64 - ?k) :: uint) = 64 - ?k"
    by (simp add: unat_of_nat)
  ultimately show ?thesis by (simp add: redux_of_def Let_def)
qed

lemma nTimeWeight_of_bound: "nTimeWeight_of c txPrev nTimeTx < 2 ^ 32"
proof -
  have "uint nTimeTx < 2 ^ 32" using uint_bounded [of nTimeTx] by simp
  moreover have "0 \<le> uint (nTime txPrev)" "0 \<le> uint (getStakeMinAge c)" by simp_all
  ultimately show ?thesis unfolding nTimeWeight_of_def by linarith
qed

lemma reduction_product:
  assumes "0 < w" "w < 2 ^ 32"
  shows "(ucast (word_of_int w :: 64 word) :: uint256) * (ucast (v :: int64) :: uint256)
           = of_nat (nat w * unat v)"
proof -
  have "take_bit 64 w = w"
    using assms by (simp add: take_bit_int_eq_self)
  then have "(ucast (word_of_int w :: 64 word) :: uint256) = of_nat (nat w)"
    by (simp add: unsigned_of_int)
  moreover have "(ucast v :: uint256) = of_nat (unat v)"
    by simp
  ultimately show ?thesis by simp
qed

lemma reduction_bound:
  assumes "0 < w" "w < 2 ^ 32"
  shows "nat w * unat (v :: int64) < 2 ^ 96"
proof -
  have "nat w < 2 ^ 32" using assms by simp
  moreover have "unat v < 2 ^ 64" using unsigned_less [of v] by simp
  ultimately have "nat w * unat v < 2 ^ 32 * 2 ^ 64"
    by (intro mult_strict_mono) simp_all
  then show ?thesis by simp
qed

lemma example_modifier:
  "GetKernelStakeModifier (example_chain 8 0) (GetHash example_block) 0 = Inr (ModifierOk, 6457481983)"
  by code_simp

lemma example_inputs_5000:
  "\<not> (5000 :: uint) < nTime example_prev_tx"
  "\<not> GetBlockTime example_block + getStakeMinAge (example_chain 8 0) > 5000"
  "0 < nTimeWeight_of (example_chain 8 0) example_prev_tx 5000"
  "(27300000 :: nat) = nat (nTimeWeight_of (example_chain 8 0) example_prev_tx 5000)
      * unat (nValue (vout example_prev_tx ! unat (n example_prevout)))"
  "(184872233912359344 :: uint256) =
      Hash (example_chain 8 0) [Ser256 6457481983, Ser32 (GetBlockTime example_block),
        Ser32 81, Ser32 (nTime example_prev_tx), Ser32 (n example_prevout), Ser32 5000]"
  by (simp_all add: example_prev_tx_def example_block_def example_chain_def
      example_prevout_def nTimeWeight_of_def example_hash_def)

lemma example_inputs_1102:
  "\<not> (1102 :: uint) < nTime example_prev_tx"
  "\<not> GetBlockTime example_block + getStakeMinAge (example_chain 8 0) > 1102"
  "0 < nTimeWeight_of (example_chain 8 0) example_prev_tx 1102"
  "(14000 :: nat) = nat (nTimeWeight_of (example_chain 8 0) example_prev_tx 1102)
      * unat (nValue (vout example_prev_tx ! unat (n example_prevout)))"
  "(184872233912355446 :: uint256) =
      Hash (example_chain 8 0) [Ser256 6457481983, Ser32 (GetBlockTime example_block),
        Ser32 81, Ser32 (nTime example_prev_tx), Ser32 (n example_prevout), Ser32 1102]"
  by (simp_all add: example_prev_tx_def example_block_def example_chain_def
      example_prevout_def nTimeWeight_of_def example_hash_def)

lemma example_output_in_range:
  "unat (n example_prevout) < length (vout example_prev_tx)"
  by (simp add: example_prev_tx_def example_prevout_def)

text \<open>
  C2. When the timestamp, age, output and weight checks pass and the selector returns a
  modifier, the value left in the caller's \<open>hashProofOfStake\<close> is the hash of the
  stream holding, in this order, the stake modifier, the time of \<open>blockFrom\<close>, the
  offset of the previous transaction, its time, the output index and the candidate
  time. That holds at every height and whatever the verdict: the value handed back is
  the hash itself, not a shifted copy.
\<close>

theorem CheckStakeKernelHash_hash_fields:
  assumes "\<not> nTimeTx < nTime txPrev"
    and "\<not> GetBlockTime blockFrom + getStakeMinAge c > nTimeTx"
    and "unat (n po) < length (vout txPrev)"
    and "0 < nTimeWeight_of c txPrev nTimeTx"
    and "GetKernelStakeModifier c (GetHash blockFrom) 0 = Inr (ModifierOk, m)"
  shows "\<exists>e. CheckStakeKernelHash c ht blockFrom off txPrev po nTimeTx h0 =
           Inr (e, Hash c [Ser256 m, Ser32 (GetBlockTime blockFrom), Ser32 off,
                           Ser32 (nTime txPrev), Ser32 (n po), Ser32 nTimeTx])"
  using CheckStakeKernelHash_reached [OF assms] by simp

theorem CheckStakeKernelHash_hash_fields_witness:
  "\<exists>e. CheckStakeKernelHash (example_chain 8 0) 1504351 example_block 81 example_prev_tx
          example_prevout 5000 5
        = Inr (e, example_hash [Ser256 6457481983, Ser32 1002, Ser32 81, Ser32 1000,
                                Ser32 1, Ser32 5000])"
proof -
  have "\<not> (5000 :: uint) < nTime example_prev_tx"
    and "\<not> GetBlockTime example_block + getStakeMinAge (example_chain 8 0) > 5000"
    and "unat (n example_prevout) < length (vout example_prev_tx)"
    and "0 < nTimeWeight_of (example_chain 8 0) example_prev_tx 5000"
    by (simp_all add: example_prev_tx_def example_block_def example_chain_def
        example_prevout_def nTimeWeight_of_def)
  from CheckStakeKernelHash_hash_fields [OF this example_modifier, of 1504351 81 5]
  show ?thesis
    by (simp add: example_prev_tx_def example_block_def example_chain_def example_prevout_def)
qed

lemma example_target:
  "SetCompact (example_chain 8 0)
     (GetNextTargetRequired (example_chain 8 0) (Tip (example_chain 8 0)) True)
   = (16139681760, False, False)"
  by (simp add: example_chain_def)

lemma example_target_nonzero: "(16139681760 :: uint256) \<noteq> 0"
  and example_target_below_limit: "(16139681760 :: uint256) \<le> posLimit (example_chain 8 0)"
  by (simp_all add: example_chain_def)

lemma example_zeros_5000: "count_list (GetHex 27300000) CHR ''0'' = 60"
  by code_simp

lemma example_zeros_1102: "count_list (GetHex 14000) CHR ''0'' = 61"
  by code_simp

lemma example_shift_5000:
  "(4 :: nat) = 64 - count_list (GetHex (of_nat 27300000)) CHR ''0''"
  by (simp add: example_zeros_5000)

lemma example_shift_1102:
  "(3 :: nat) = 64 - count_list (GetHex (of_nat 14000)) CHR ''0''"
  by (simp add: example_zeros_1102)

lemma example_accept:
  "drop_bit 4 (drop_bit 20 (184872233912359344 :: uint256)) \<le> 16139681760"
  by code_simp

lemma example_reject_shifted:
  "\<not> drop_bit 3 (drop_bit 20 (184872233912355446 :: uint256)) \<le> 16139681760"
  by code_simp

lemma walk_cong_Next:
  "Next c' = Next c \<Longrightarrow> walk c' p b = walk c p b"
proof (induction c p b rule: walk.induct)
  case (1 c p b)
  show ?case
  proof (cases "Next c p")
    case None
    with "1.prems" show ?thesis by (simp add: walk_None)
  next
    case (Some nx)
    show ?thesis
    proof (cases "0 < b")
      case True
      from "1.IH" [OF Some True "1.prems"] Some True "1.prems" show ?thesis
        by (simp add: walk_step)
    next
      case False
      then show ?thesis by (simp add: walk_stop)
    qed
  qed
qed

lemma GetKernelStakeModifier_target_free:
  "GetKernelStakeModifier (c\<lparr>posLimit := pl, GetNextTargetRequired := g, SetCompact := sc\<rparr>) h m0
     = GetKernelStakeModifier c h m0"
proof -
  have "walk (c\<lparr>posLimit := pl, GetNextTargetRequired := g, SetCompact := sc\<rparr>) p b = walk c p b"
    for p b by (rule walk_cong_Next) simp
  then show ?thesis
    by (simp add: GetKernelStakeModifier_def six_fields_def Let_def
        split: option.splits prod.splits)
qed

lemma CheckStakeKernelHash_below_gate:
  assumes "ht \<le> 1504350"
  shows "CheckStakeKernelHash c ht blockFrom off txPrev po nTimeTx h0 =
           CheckStakeKernelHash c 1504350 blockFrom off txPrev po nTimeTx h0"
  using assms
  by (simp add: CheckStakeKernelHash_def Let_def split: sum.splits prod.splits)

lemma CheckStakeKernelHash_below_gate_exits:
  assumes "ht \<le> 1504350"
  shows "CheckStakeKernelHash c ht blockFrom off txPrev po nTimeTx h0 \<noteq> Inr (InvalidTarget, h)"
    and "CheckStakeKernelHash c ht blockFrom off txPrev po nTimeTx h0 \<noteq> Inr (TargetNotMet, h)"
  using assms
  by (auto simp add: CheckStakeKernelHash_def Let_def split: sum.splits prod.splits if_splits)

lemma CheckStakeKernelHash_below_gate_target_free:
  assumes "ht \<le> 1504350"
  shows "CheckStakeKernelHash (c\<lparr>posLimit := pl, GetNextTargetRequired := g, SetCompact := sc\<rparr>)
            ht blockFrom off txPrev po nTimeTx h0 =
         CheckStakeKernelHash c ht blockFrom off txPrev po nTimeTx h0"
  using assms
  by (simp add: CheckStakeKernelHash_def GetKernelStakeModifier_target_free nTimeWeight_of_def
      Let_def split: sum.splits prod.splits)

lemma target_check_explicit:
  assumes "0 < w" and "w < 2 ^ 32"
  shows "target_check c w v H =
     (case SetCompact c (GetNextTargetRequired c (Tip c) True) of
        (target, negative, overflow) \<Rightarrow>
          if negative \<or> target = 0 \<or> overflow \<or> target > posLimit c then InvalidTarget
          else if drop_bit (64 - count_list (GetHex (of_nat (nat w * unat v))) CHR ''0'')
                    (drop_bit 20 H) \<le> target
               then KernelOk else TargetNotMet)"
  unfolding target_check_def Let_def reduction_product [OF assms] unat_redux_of
  by (auto split: prod.splits simp add: not_less)

lemma CheckStakeKernelHash_above_gate:
  assumes "ht > 1504350"
  shows "CheckStakeKernelHash c ht blockFrom off txPrev po nTimeTx h0 =
     (case CheckStakeKernelHash c 1504350 blockFrom off txPrev po nTimeTx h0 of
        Inl f \<Rightarrow> Inl f
      | Inr (e, H) \<Rightarrow>
          if e \<noteq> KernelOk then Inr (e, H)
          else
           (case SetCompact c (GetNextTargetRequired c (Tip c) True) of
              (target, negative, overflow) \<Rightarrow>
                if negative \<or> target = 0 \<or> overflow \<or> target > posLimit c
                then Inr (InvalidTarget, H)
                else if drop_bit
                          (64 - count_list
                             (GetHex (of_nat (nat (nTimeWeight_of c txPrev nTimeTx)
                                * unat (nValue (vout txPrev ! unat (n po))))))
                             CHR ''0'')
                          (drop_bit 20 H) \<le> target
                     then Inr (KernelOk, H) else Inr (TargetNotMet, H)))"
proof -
  let ?w = "nTimeWeight_of c txPrev nTimeTx"
  have w: "?w < 2 ^ 32" by (rule nTimeWeight_of_bound)
  show ?thesis
  proof (cases "0 < ?w")
    case True
    show ?thesis
      using assms True
      by (simp add: CheckStakeKernelHash_def Let_def target_check_explicit [OF True w]
          split: sum.splits prod.splits)
  next
    case False
    then show ?thesis
      using assms
      by (simp add: CheckStakeKernelHash_def Let_def split: sum.splits prod.splits)
  qed
qed

text \<open>
  C1. For every input: at a height of at most 1504350 the function behaves as at
  1504350, never returns at the invalid-target or the target-not-met exit, and gives
  the same result whatever the limit, the difficulty provider and the compact decoder
  are, so no target comparison is made. At a height above 1504350 the result is the one
  at 1504350 with the return of \<open>true\<close> replaced by the outcome of lines 234 to 261:
  the validity test of the decoded target, and the comparison of the hash, shifted
  right by 20 and then by 64 minus the number of \<open>'0'\<close> digits of the reduction, with
  the target. For inputs that reach the hashing step, the result at 1504350 is a
  return of \<open>true\<close> with the hash of the six values. At any two heights the fault, or
  the value left in \<open>hashProofOfStake\<close>, is the same.
\<close>

theorem CheckStakeKernelHash_height_gate:
  "(ht \<le> 1504350 \<longrightarrow>
      CheckStakeKernelHash c ht blockFrom off txPrev po nTimeTx h0 =
        CheckStakeKernelHash c 1504350 blockFrom off txPrev po nTimeTx h0 \<and>
      (\<forall>h. CheckStakeKernelHash c ht blockFrom off txPrev po nTimeTx h0
               \<noteq> Inr (InvalidTarget, h) \<and>
           CheckStakeKernelHash c ht blockFrom off txPrev po nTimeTx h0
               \<noteq> Inr (TargetNotMet, h)) \<and>
      (\<forall>pl g sc.
         CheckStakeKernelHash
           (c\<lparr>posLimit := pl, GetNextTargetRequired := g, SetCompact := sc\<rparr>)
           ht blockFrom off txPrev po nTimeTx h0 =
         CheckStakeKernelHash c ht blockFrom off txPrev po nTimeTx h0)) \<and>
   (ht > 1504350 \<longrightarrow>
      CheckStakeKernelHash c ht blockFrom off txPrev po nTimeTx h0 =
        (case CheckStakeKernelHash c 1504350 blockFrom off txPrev po nTimeTx h0 of
           Inl f \<Rightarrow> Inl f
         | Inr (e, H) \<Rightarrow>
             if e \<noteq> KernelOk then Inr (e, H)
             else
              (case SetCompact c (GetNextTargetRequired c (Tip c) True) of
                 (target, negative, overflow) \<Rightarrow>
                   if negative \<or> target = 0 \<or> overflow \<or> target > posLimit c
                   then Inr (InvalidTarget, H)
                   else if drop_bit
                             (64 - count_list
                                (GetHex (of_nat (nat (nTimeWeight_of c txPrev nTimeTx)
                                   * unat (nValue (vout txPrev ! unat (n po))))))
                                CHR ''0'')
                             (drop_bit 20 H) \<le> target
                        then Inr (KernelOk, H) else Inr (TargetNotMet, H)))) \<and>
   (\<not> nTimeTx < nTime txPrev \<and>
    \<not> GetBlockTime blockFrom + getStakeMinAge c > nTimeTx \<and>
    unat (n po) < length (vout txPrev) \<and>
    0 < nTimeWeight_of c txPrev nTimeTx \<and>
    GetKernelStakeModifier c (GetHash blockFrom) 0 = Inr (ModifierOk, m) \<longrightarrow>
      CheckStakeKernelHash c 1504350 blockFrom off txPrev po nTimeTx h0 =
        Inr (KernelOk, Hash c [Ser256 m, Ser32 (GetBlockTime blockFrom), Ser32 off,
                                Ser32 (nTime txPrev), Ser32 (n po), Ser32 nTimeTx])) \<and>
   map_sum id snd (CheckStakeKernelHash c ht1 blockFrom off txPrev po nTimeTx h0) =
   map_sum id snd (CheckStakeKernelHash c ht2 blockFrom off txPrev po nTimeTx h0)"
  using CheckStakeKernelHash_below_gate [of ht c blockFrom off txPrev po nTimeTx h0]
    CheckStakeKernelHash_reached [of nTimeTx txPrev blockFrom c po m 1504350 off h0]
    CheckStakeKernelHash_below_gate_exits [of ht c blockFrom off txPrev po nTimeTx h0]
    CheckStakeKernelHash_below_gate_target_free [of ht _ _ _ c blockFrom off txPrev po nTimeTx h0]
    CheckStakeKernelHash_above_gate [of ht c blockFrom off txPrev po nTimeTx h0]
    CheckStakeKernelHash_height_independent [of c ht1 blockFrom off txPrev po nTimeTx h0 ht2]
  by simp

lemma example_kernel_at_gate:
  "CheckStakeKernelHash (example_chain 8 0) 1504350 example_block 81 example_prev_tx
      example_prevout 1102 5 = Inr (KernelOk, 184872233912355446)"
  by code_simp

theorem CheckStakeKernelHash_height_gate_witness:
  "CheckStakeKernelHash (example_chain 8 0) 1504350 example_block 81 example_prev_tx
      example_prevout 1102 5 = Inr (KernelOk, 184872233912355446) \<and>
   CheckStakeKernelHash
      ((example_chain 8 0)\<lparr>posLimit := 0, GetNextTargetRequired := (\<lambda>_ _. 0),
                             SetCompact := (\<lambda>_. (0, True, True))\<rparr>)
      1504350 example_block 81 example_prev_tx
      example_prevout 1102 5 = Inr (KernelOk, 184872233912355446) \<and>
   CheckStakeKernelHash (example_chain 8 0) 1504351 example_block 81 example_prev_tx
      example_prevout 1102 5 = Inr (TargetNotMet, 184872233912355446)"
proof -
  let ?c = "example_chain 8 0"
  have lo: "(1504350 :: int) \<le> 1504350" and hi: "(1504351 :: int) > 1504350" by simp_all
  have w: "nat (nTimeWeight_of ?c example_prev_tx 1102)
             * unat (nValue (vout example_prev_tx ! unat (n example_prevout))) = 14000"
    using example_inputs_1102(4) by simp
  have lim: "\<not> (16139681760 :: uint256) > posLimit ?c"
    using example_target_below_limit by (simp add: not_less)
  from CheckStakeKernelHash_height_gate [of 1504350 ?c example_block 81 example_prev_tx
         example_prevout 1102 5 6457481983 1504350 1504350]
    CheckStakeKernelHash_height_gate [of 1504351 ?c example_block 81 example_prev_tx
         example_prevout 1102 5 6457481983 1504351 1504351]
    lo hi example_inputs_1102(1,2,3) example_output_in_range example_modifier
  show ?thesis
    by (simp add: example_kernel_at_gate example_target w example_zeros_1102
        example_reject_shifted lim)
qed

lemma example_low_limit_modifier:
  "GetKernelStakeModifier example_low_limit_chain (GetHash example_block) 0
     = Inr (ModifierOk, 6457481983)"
  by code_simp

lemma example_low_limit_inputs:
  "\<not> GetBlockTime example_block + getStakeMinAge example_low_limit_chain > 5000"
  "0 < nTimeWeight_of example_low_limit_chain example_prev_tx 5000"
  "SetCompact example_low_limit_chain
     (GetNextTargetRequired example_low_limit_chain (Tip example_low_limit_chain) True)
   = (16139681760, False, False)"
  "(27300000 :: nat) = nat (nTimeWeight_of example_low_limit_chain example_prev_tx 5000)
      * unat (nValue (vout example_prev_tx ! unat (n example_prevout)))"
  "(184872233912359344 :: uint256) =
      Hash example_low_limit_chain [Ser256 6457481983, Ser32 (GetBlockTime example_block),
        Ser32 81, Ser32 (nTime example_prev_tx), Ser32 (n example_prevout), Ser32 5000]"
  "(16139681760 :: uint256) > posLimit example_low_limit_chain"
  by (simp_all add: example_low_limit_chain_def example_prev_tx_def example_block_def
      example_chain_def example_prevout_def nTimeWeight_of_def example_hash_def)

lemma example_low_limit_kernel:
  "CheckStakeKernelHash example_low_limit_chain 1504351 example_block 81 example_prev_tx
      example_prevout 5000 5 = Inr (InvalidTarget, 184872233912359344)"
  by code_simp

text \<open>
  C3, as the code has it. Above height 1504350, for inputs that reach the hashing step:
  with \<open>reduction\<close> the product of the time weight and the output value (read as
  unsigned; the product stays below \<open>2 ^ 96\<close>, so 256 bits hold it), and \<open>shift\<close>
  being 64 minus the number of \<open>'0'\<close> characters of its 64-digit rendering, the
  function returns at the invalid-target exit when the decoded target is negative, zero,
  overflowing or above the limit; otherwise it returns \<open>true\<close> exactly when the hash
  shifted right by 20 and then by \<open>shift\<close> bits is at most the target, and returns at
  the target-not-met exit when it is not.
\<close>

theorem CheckStakeKernelHash_target_comparison:
  assumes "\<not> nTimeTx < nTime txPrev"
    and "\<not> GetBlockTime blockFrom + getStakeMinAge c > nTimeTx"
    and "unat (n po) < length (vout txPrev)"
    and "0 < nTimeWeight_of c txPrev nTimeTx"
    and "GetKernelStakeModifier c (GetHash blockFrom) 0 = Inr (ModifierOk, m)"
    and "ht > 1504350"
    and "SetCompact c (GetNextTargetRequired c (Tip c) True) = (target, negative, overflow)"
    and "reduction = nat (nTimeWeight_of c txPrev nTimeTx)
                       * unat (nValue (vout txPrev ! unat (n po)))"
    and "shift = 64 - count_list (GetHex (of_nat reduction)) CHR ''0''"
    and "H = Hash c [Ser256 m, Ser32 (GetBlockTime blockFrom), Ser32 off,
                     Ser32 (nTime txPrev), Ser32 (n po), Ser32 nTimeTx]"
  shows "reduction < 2 ^ 96 \<and>
         CheckStakeKernelHash c ht blockFrom off txPrev po nTimeTx h0 =
           Inr (if negative \<or> target = 0 \<or> overflow \<or> target > posLimit c
                then InvalidTarget
                else if drop_bit shift (drop_bit 20 H) \<le> target then KernelOk
                else TargetNotMet, H)"
proof -
  let ?w = "nTimeWeight_of c txPrev nTimeTx"
  let ?v = "nValue (vout txPrev ! unat (n po))"
  have w: "?w < 2 ^ 32" by (rule nTimeWeight_of_bound)
  have b: "reduction < 2 ^ 96"
    using reduction_bound [OF assms(4) w, of ?v] assms(8) by simp
  have "CheckStakeKernelHash c ht blockFrom off txPrev po nTimeTx h0 =
          Inr (target_check c ?w ?v H, H)"
    using CheckStakeKernelHash_reached [OF assms(1-5)] assms(6,10) by simp
  also have "target_check c ?w ?v H =
     (if negative \<or> target = 0 \<or> overflow \<or> target > posLimit c then InvalidTarget
      else if drop_bit shift (drop_bit 20 H) \<le> target then KernelOk else TargetNotMet)"
    using target_check_explicit [OF assms(4) w, of c ?v H] assms(7,8,9) by simp
  finally show ?thesis using b by simp
qed

theorem CheckStakeKernelHash_target_comparison_witness:
  "CheckStakeKernelHash (example_chain 8 0) 1504351 example_block 81 example_prev_tx
      example_prevout 5000 5 = Inr (KernelOk, 184872233912359344) \<and>
   CheckStakeKernelHash (example_chain 8 0) 1504351 example_block 81 example_prev_tx
      example_prevout 1102 5 = Inr (TargetNotMet, 184872233912355446) \<and>
   CheckStakeKernelHash example_low_limit_chain 1504351 example_block 81 example_prev_tx
      example_prevout 5000 5 = Inr (InvalidTarget, 184872233912359344)"
proof -
  have ht: "(1504351 :: int) > 1504350" by simp
  have lim: "\<not> (16139681760 :: uint256) > posLimit (example_chain 8 0)"
    using example_target_below_limit by (simp add: not_less)
  from CheckStakeKernelHash_target_comparison
         [OF example_inputs_5000(1,2) example_output_in_range example_inputs_5000(3)
             example_modifier ht example_target example_inputs_5000(4) example_shift_5000
             example_inputs_5000(5), of 5]
    CheckStakeKernelHash_target_comparison
         [OF example_inputs_1102(1,2) example_output_in_range example_inputs_1102(3)
             example_modifier ht example_target example_inputs_1102(4) example_shift_1102
             example_inputs_1102(5), of 5]
    CheckStakeKernelHash_target_comparison
         [OF example_inputs_5000(1) example_low_limit_inputs(1) example_output_in_range
             example_low_limit_inputs(2) example_low_limit_modifier ht
             example_low_limit_inputs(3,4) example_shift_5000
             example_low_limit_inputs(5), of 5]
  show ?thesis
    by (simp add: example_accept example_reject_shifted lim example_low_limit_inputs(6))
qed

text \<open>
  C3, as stated, accepts whenever the shifted hash is at most the decoded target. With
  a limit of 1000 the decoded target 16139681760 is above the limit: the shifted hash is
  at most the target, and the function returns at the invalid-target exit.
\<close>

theorem CheckStakeKernelHash_target_comparison_counterexample:
  "SetCompact example_low_limit_chain
     (GetNextTargetRequired example_low_limit_chain (Tip example_low_limit_chain) True)
   = (16139681760, False, False) \<and>
   64 - count_list (GetHex (of_nat (nat (nTimeWeight_of example_low_limit_chain
          example_prev_tx 5000)
        * unat (nValue (vout example_prev_tx ! unat (n example_prevout))))))
      CHR ''0'' = 4 \<and>
   drop_bit 4 (drop_bit 20 (184872233912359344 :: uint256)) \<le> 16139681760 \<and>
   CheckStakeKernelHash example_low_limit_chain 1504351 example_block 81 example_prev_tx
      example_prevout 5000 5 = Inr (InvalidTarget, 184872233912359344)"
  using example_low_limit_inputs(3) example_low_limit_inputs(4) [symmetric]
    example_shift_5000 [symmetric] example_accept example_low_limit_kernel
  by simp


section \<open>The age gate\<close>

lemma positive_weight_not_earlier:
  assumes "0 < nTimeWeight_of c txPrev nTimeTx"
  shows "\<not> nTimeTx < nTime txPrev"
proof -
  have "0 \<le> uint (getStakeMinAge c)" by simp
  with assms have "uint (nTime txPrev) < uint nTimeTx"
    unfolding nTimeWeight_of_def by linarith
  then show ?thesis by (simp add: word_less_def)
qed

text \<open>
  C8, as the code has it. The bound of the age gate is the time of \<open>blockFrom\<close> plus
  the minimum age, added in 32-bit unsigned arithmetic. Every candidate time strictly
  below that bound returns at the timestamp exit or at the minimum-age exit, with the
  caller's \<open>hashProofOfStake\<close> untouched. Every candidate time at or past that bound
  with a positive time weight returns at neither of the two.
\<close>

theorem CheckStakeKernelHash_age_gate:
  "(nTimeTx < GetBlockTime blockFrom + getStakeMinAge c \<longrightarrow>
      CheckStakeKernelHash c ht blockFrom off txPrev po nTimeTx h0 =
        Inr (if nTimeTx < nTime txPrev then TimestampViolation else MinimumAgeViolation, h0)) \<and>
   (GetBlockTime blockFrom + getStakeMinAge c \<le> nTimeTx \<and>
    0 < nTimeWeight_of c txPrev nTimeTx \<longrightarrow>
      (\<forall>h. CheckStakeKernelHash c ht blockFrom off txPrev po nTimeTx h0
              \<noteq> Inr (TimestampViolation, h) \<and>
           CheckStakeKernelHash c ht blockFrom off txPrev po nTimeTx h0
              \<noteq> Inr (MinimumAgeViolation, h)))"
proof (intro conjI impI allI)
  assume "nTimeTx < GetBlockTime blockFrom + getStakeMinAge c"
  then show "CheckStakeKernelHash c ht blockFrom off txPrev po nTimeTx h0 =
        Inr (if nTimeTx < nTime txPrev then TimestampViolation else MinimumAgeViolation, h0)"
    by (simp add: CheckStakeKernelHash_def)
next
  fix h
  assume a: "GetBlockTime blockFrom + getStakeMinAge c \<le> nTimeTx \<and>
    0 < nTimeWeight_of c txPrev nTimeTx"
  then have 1: "\<not> nTimeTx < nTime txPrev"
    using positive_weight_not_earlier [of c txPrev nTimeTx] by simp
  from a have 2: "\<not> GetBlockTime blockFrom + getStakeMinAge c > nTimeTx" by (simp add: not_less)
  from a have 3: "\<not> nTimeWeight_of c txPrev nTimeTx \<le> 0" by simp
  show "CheckStakeKernelHash c ht blockFrom off txPrev po nTimeTx h0
              \<noteq> Inr (TimestampViolation, h)"
    using 1 2 3
    by (auto simp add: CheckStakeKernelHash_def Let_def target_check_def
        split: sum.splits prod.splits if_splits)
  show "CheckStakeKernelHash c ht blockFrom off txPrev po nTimeTx h0
              \<noteq> Inr (MinimumAgeViolation, h)"
    using 1 2 3
    by (auto simp add: CheckStakeKernelHash_def Let_def target_check_def
        split: sum.splits prod.splits if_splits)
qed

theorem CheckStakeKernelHash_age_gate_witness:
  "CheckStakeKernelHash (example_chain 8 0) 1504351 example_late_block 81 example_prev_tx
      example_prevout 1500 5 = Inr (MinimumAgeViolation, 5) \<and>
   CheckStakeKernelHash (example_chain 8 0) 1504351 example_block 81 example_prev_tx
      example_prevout 990 5 = Inr (TimestampViolation, 5) \<and>
   (\<forall>h. CheckStakeKernelHash (example_chain 8 0) 1504351 example_block 81 example_prev_tx
          example_prevout 5000 5 \<noteq> Inr (TimestampViolation, h) \<and>
        CheckStakeKernelHash (example_chain 8 0) 1504351 example_block 81 example_prev_tx
          example_prevout 5000 5 \<noteq> Inr (MinimumAgeViolation, h))"
proof -
  let ?c = "example_chain 8 0"
  have a: "(1500 :: uint) < GetBlockTime example_late_block + getStakeMinAge ?c"
    and a': "\<not> (1500 :: uint) < nTime example_prev_tx"
    and b: "(990 :: uint) < GetBlockTime example_block + getStakeMinAge ?c"
    and b': "(990 :: uint) < nTime example_prev_tx"
    and d: "GetBlockTime example_block + getStakeMinAge ?c \<le> 5000"
    and d': "0 < nTimeWeight_of ?c example_prev_tx 5000"
    by (simp_all add: example_chain_def example_late_block_def example_block_def
        example_prev_tx_def nTimeWeight_of_def)
  from CheckStakeKernelHash_age_gate [of 1500 example_late_block ?c 1504351 81
         example_prev_tx example_prevout 5]
    CheckStakeKernelHash_age_gate [of 990 example_block ?c 1504351 81
         example_prev_tx example_prevout 5]
    CheckStakeKernelHash_age_gate [of 5000 example_block ?c 1504351 81
         example_prev_tx example_prevout 5]
    a a' b b' d d'
  show ?thesis by simp
qed

text \<open>
  C8, as stated, takes the bound from the time of the previous transaction. With the
  previous transaction at time 1000 in a block at time 2000 and a minimum age of 100,
  the candidate time 1500 is past 1100 and has a positive time weight, yet the function
  returns at the minimum-age exit. With a block at time 900, the candidate time 1050
  is below 1100 and passes both checks, to fail only on the time weight.
\<close>

theorem CheckStakeKernelHash_age_gate_counterexample:
  "uint (nTime example_prev_tx) + uint (getStakeMinAge (example_chain 8 0)) \<le> uint (1500 :: uint) \<and>
   0 < nTimeWeight_of (example_chain 8 0) example_prev_tx 1500 \<and>
   CheckStakeKernelHash (example_chain 8 0) 1504351 example_late_block 81 example_prev_tx
      example_prevout 1500 5 = Inr (MinimumAgeViolation, 5) \<and>
   uint (1050 :: uint) < uint (nTime example_prev_tx) + uint (getStakeMinAge (example_chain 8 0)) \<and>
   CheckStakeKernelHash (example_chain 8 0) 1504351 example_early_block 81
      example_prev_tx example_prevout 1050 5 = Inr (NonPositiveWeight, 5)"
  by (simp add: CheckStakeKernelHash_def example_chain_def example_late_block_def example_early_block_def
      example_prev_tx_def example_prevout_def nTimeWeight_of_def)


section \<open>The offset correction\<close>

lemma example_kernel_161:
  "CheckStakeKernelHash (example_chain 8 0) 1505774 example_block 161 example_prev_tx
     example_prevout 5000 5 = Inr (KernelOk, 184872233914742624)"
  by code_simp
lemma example_kernel_81:
  "CheckStakeKernelHash (example_chain 8 0) 1505775 example_block 81 example_prev_tx
     example_prevout 5000 5 = Inr (KernelOk, 184872233912359344)"
  by code_simp

text \<open>
  C5. For a coinstake whose previous transaction is found, whose signature verifies and
  whose block is read, \<open>CheckProofOfStake\<close> is the kernel check called with the
  transaction-index offset plus 80 (in 32-bit unsigned arithmetic) below height 1505775
  and with the offset itself from 1505775 on; the block, the previous transaction, the
  outpoint, the transaction time and the caller's hash are the same in both branches.
\<close>

theorem CheckProofOfStake_offset:
  assumes "IsCoinStake tx"
    and "vin tx = txin # rest"
    and "GetTransaction c (hash (prevout txin)) = Some (txPrev, blockHashOfTx)"
    and "VerifySignature c txPrev tx 0 True"
    and "ReadBlockFromDisk c (LookupBlockIndex c blockHashOfTx) = Some block"
    and "offset = ReadTxIndex c (tx_GetHash txPrev)"
  shows "CheckProofOfStake c ht tx h0 =
     (case CheckStakeKernelHash c ht block (if ht < 1505775 then offset + 80 else offset)
             txPrev (prevout txin) (nTime tx) h0 of
        Inl f \<Rightarrow> Inl f
      | Inr (e, h) \<Rightarrow> if e \<noteq> KernelOk then Inr (KernelCheckFailed e, h) else Inr (PosOk, h))"
  using assms by (simp add: CheckProofOfStake_def Let_def)

theorem CheckProofOfStake_offset_witness:
  "CheckProofOfStake (example_chain 8 0) 1505774 example_coinstake 5
     = Inr (PosOk, 184872233914742624) \<and>
   CheckProofOfStake (example_chain 8 0) 1505775 example_coinstake 5
     = Inr (PosOk, 184872233912359344)"
proof -
  let ?c = "example_chain 8 0"
  have a: "IsCoinStake example_coinstake"
    and b: "vin example_coinstake = \<lparr>prevout = example_prevout\<rparr> # []"
    and nt: "nTime example_coinstake = 5000"
    by (simp_all add: IsCoinStake_def example_coinstake_def example_prevout_def)
  have g: "GetTransaction ?c (hash (prevout \<lparr>prevout = example_prevout\<rparr>))
             = Some (example_prev_tx, 2)"
    and v: "VerifySignature ?c example_prev_tx example_coinstake 0 True"
    and r: "ReadBlockFromDisk ?c (LookupBlockIndex ?c 2) = Some example_block"
    and off: "(81 :: uint) = ReadTxIndex ?c (tx_GetHash example_prev_tx)"
    by (simp_all add: example_chain_def example_prevout_def example_block_def)
  from CheckProofOfStake_offset [OF a b g v r off, of 1505774 5]
    CheckProofOfStake_offset [OF a b g v r off, of 1505775 5]
  show ?thesis by (simp add: nt example_kernel_161 example_kernel_81)
qed


section \<open>Unchecked indexing\<close>







section \<open>The coinbase branch\<close>

text \<open>
  C6, as the code has it. For a coinbase and a previous block index that is present,
  the function returns \<open>true\<close>; the modifier is recomputed exactly when the parent and
  the grandparent of the previous block index both exist, and is left null otherwise.
  The recomputed modifier is the hash of the six values of the previous block index, its
  parent and its grandparent, with no forward walk.
\<close>

theorem ComputeNextStakeModifier_coinbase:
  assumes "\<not> IsNull tx" and "IsCoinBase tx"
  shows "ComputeNextStakeModifier c (Some p0) tx m0 =
     Inr (CoinBaseOk,
          case pprev (blockindex c p0) of
            None \<Rightarrow> 0
          | Some p1 \<Rightarrow>
             (case pprev (blockindex c p1) of
                None \<Rightarrow> 0
              | Some p2 \<Rightarrow> Hash c (six_fields c p0 p1 p2)))"
  using assms by (simp add: ComputeNextStakeModifier_def split: option.splits)

theorem ComputeNextStakeModifier_coinbase_witness:
  "ComputeNextStakeModifier (example_chain 8 0) (Some 5) example_coinbase 12345
     = Inr (CoinBaseOk, 6396466105) \<and>
   ComputeNextStakeModifier (example_chain 8 0) (Some 1) example_coinbase 12345
     = Inr (CoinBaseOk, 0)"
proof -
  have a: "\<not> IsNull example_coinbase" and b: "IsCoinBase example_coinbase"
    by (simp_all add: example_coinbase_def)
  from ComputeNextStakeModifier_coinbase [OF a b, of "example_chain 8 0" 5 12345]
    ComputeNextStakeModifier_coinbase [OF a b, of "example_chain 8 0" 1 12345]
  show ?thesis
    by (simp add: example_chain_def six_fields_def example_hash_def)
qed

text \<open>
  C6, as stated, asks for three ancestors above the previous block index. The block at
  address 2 has two, its parent and the genesis block, and the modifier is recomputed.
\<close>

theorem ComputeNextStakeModifier_coinbase_counterexample:
  "pprev (blockindex (example_chain 8 0) 2) = Some 1 \<and>
   pprev (blockindex (example_chain 8 0) 1) = Some 0 \<and>
   pprev (blockindex (example_chain 8 0) 0) = None \<and>
   IsCoinBase example_coinbase \<and>
   ComputeNextStakeModifier (example_chain 8 0) (Some 2) example_coinbase 0
     = Inr (CoinBaseOk, 6304942288) \<and>
   (6304942288 :: uint256) \<noteq> 0"
  by (simp add: ComputeNextStakeModifier_def example_chain_def example_coinbase_def
      six_fields_def example_hash_def)

section \<open>Missing ancestors\<close>







end
